theory Spec2Isabelle
  imports
    Main
    "HOL-Library.Multiset"
    "HOL-Library.Char_ord"
    "HOL-Library.List_Lexorder"
    "HOL-Library.Option_ord"
    "HOL-Library.Product_Lexorder"
begin

section \<open>The prompt database (src/modules/database.py)\<close>

text \<open>
  The three tables the session layer uses are modelled as lists of rows, in the order the
  rows were inserted. Every table is declared \<open>INTEGER PRIMARY KEY AUTOINCREMENT\<close>, so
  each one carries the counter SQLite keeps in \<open>sqlite_sequence\<close>. Row ids are natural
  numbers: SQLite hands out 1, 2, 3, ... and the code never chooses an id itself; the
  conversation id a message carries is such a row id.
  TEXT columns are strings (byte lists, compared bytewise as SQLite's BINARY collation
  does), nullable TEXT columns are \<open>string option\<close> with \<open>None\<close> for NULL, and the
  INTEGER column \<open>priority\<close> is an \<open>int\<close>, as the type hints of \<open>add_document\<close> say.
  \<open>datetime.now().isoformat()\<close> is the parameter \<open>now\<close> of every writing operation.
\<close>

record prompt_document =
  d_id :: nat
  d_name :: string
  d_description :: "string option"
  d_github_url :: "string option"
  d_local_path :: "string option"
  d_category :: "string option"
  d_priority :: int
  d_source_updated_at :: "string option"
  d_created_at :: string
  d_updated_at :: string

record conversation =
  c_id :: nat
  c_session_id :: string
  c_started_at :: string
  c_ended_at :: "string option"
  c_agent_name :: "string option"
  c_status :: string

record message =
  m_id :: nat
  m_conversation_id :: nat
  m_role :: string
  m_content :: string
  m_timestamp :: string

record store =
  prompt_documents :: "prompt_document list"
  prompt_documents_seq :: nat
  conversations :: "conversation list"
  conversations_seq :: nat
  messages :: "message list"
  messages_seq :: nat

text \<open>The state after \<open>_init_db\<close> on a fresh file: every table exists and is empty.\<close>

definition init_db :: store where
  "init_db = \<lparr>prompt_documents = [], prompt_documents_seq = 0,
              conversations = [], conversations_seq = 0,
              messages = [], messages_seq = 0\<rparr>"

text \<open>
  AUTOINCREMENT: the new rowid is one more than the largest rowid the table has ever
  held, which SQLite computes from the stored counter and the largest rowid present.
\<close>

definition next_rowid :: "nat \<Rightarrow> nat list \<Rightarrow> nat" where
  "next_rowid seq ids = Suc (max seq (fold max ids 0))"

text \<open>
  The exceptions the operations below can raise: \<open>sqlite3.IntegrityError\<close> with
  SQLite's message, \<open>OverflowError\<close> when an integer parameter does not fit SQLite's
  INTEGER, and \<open>TypeError\<close> when a call cannot bind its arguments.
\<close>

datatype db_error = IntegrityError string | OverflowError | TypeError

text \<open>
  SQLite's INTEGER is a signed 64-bit integer. The \<open>sqlite3\<close> module binds the
  parameters of a statement before it runs the statement, and raises \<open>OverflowError\<close>
  for a Python \<open>int\<close> outside this range.
\<close>

definition sqlite_integer :: "int \<Rightarrow> bool" where
  "sqlite_integer i = (- (2 ^ 63) \<le> i \<and> i < 2 ^ 63)"

subsection \<open>Prompt documents\<close>

text \<open>
  \<open>add_document\<close>: binding a \<open>priority\<close> that is no SQLite INTEGER raises before
  the INSERT runs. The INSERT fails on the \<open>UNIQUE\<close> constraint of \<open>name\<close>; the
  statement is then rolled back and the exception leaves the \<open>with\<close> block. Either way
  the store that comes back with the error is the one that went in.
\<close>

definition add_document ::
  "store \<Rightarrow> string \<Rightarrow> string option \<Rightarrow> string option \<Rightarrow> string option \<Rightarrow> string option
     \<Rightarrow> int \<Rightarrow> string option \<Rightarrow> string \<Rightarrow> (db_error + nat) \<times> store" where
  "add_document s name description github_url local_path category priority
       source_updated_at now =
     (if \<not> sqlite_integer priority then (Inl OverflowError, s)
      else if name \<in> set (map d_name (prompt_documents s))
      then (Inl (IntegrityError ''UNIQUE constraint failed: prompt_documents.name''), s)
      else
        let lastrowid = next_rowid (prompt_documents_seq s) (map d_id (prompt_documents s))
        in (Inr lastrowid,
            s\<lparr>prompt_documents := prompt_documents s @
                 [\<lparr>d_id = lastrowid, d_name = name, d_description = description,
                   d_github_url = github_url, d_local_path = local_path,
                   d_category = category, d_priority = priority,
                   d_source_updated_at = source_updated_at,
                   d_created_at = now, d_updated_at = now\<rparr>],
               prompt_documents_seq := lastrowid\<rparr>))"

definition get_document :: "store \<Rightarrow> string \<Rightarrow> prompt_document option" where
  "get_document s name = find (\<lambda>d. d_name d = name) (prompt_documents s)"

text \<open>Python's truth test on an optional string: \<open>None\<close> and \<open>""\<close> are false.\<close>

fun truthy_str :: "string option \<Rightarrow> bool" where
  "truthy_str None = False"
| "truthy_str (Some t) = (t \<noteq> [])"

text \<open>
  \<open>list_documents\<close>: \<open>ORDER BY\<close> is a sort on the tuple of the listed columns, the
  tuple compared lexicographically; \<open>priority DESC\<close> is the negated priority, and a NULL
  category comes before every string, as in SQLite.
\<close>

definition list_documents :: "store \<Rightarrow> string option \<Rightarrow> bool \<Rightarrow> prompt_document list" where
  "list_documents s category order_by_priority =
     (if truthy_str category then
        (let rows = filter (\<lambda>d. d_category d = category) (prompt_documents s)
         in if order_by_priority then sort_key (\<lambda>d. (- d_priority d, d_name d)) rows
            else sort_key d_name rows)
      else
        (if order_by_priority
         then sort_key (\<lambda>d. (- d_priority d, d_category d, d_name d)) (prompt_documents s)
         else sort_key (\<lambda>d. (d_category d, d_name d)) (prompt_documents s)))"

text \<open>
  The keyword arguments of \<open>update_document\<close>: one constructor for each column of the
  allow-list, carrying a value of the column's type, and \<open>Other k\<close> for a keyword \<open>k\<close>
  that names none of them (its value is never read). A Python dict holds each key once.
  The keywords \<open>self\<close> and \<open>name\<close> are the method's own parameters: a call that
  passes one of them as a keyword raises \<open>TypeError\<close> before the body runs.
\<close>

datatype kwarg =
    Description "string option"
  | Github_url "string option"
  | Local_path "string option"
  | Category "string option"
  | Priority int
  | Source_updated_at "string option"
  | Updated_at string
  | Other string

fun kwarg_key :: "kwarg \<Rightarrow> string" where
  "kwarg_key (Description _) = ''description''"
| "kwarg_key (Github_url _) = ''github_url''"
| "kwarg_key (Local_path _) = ''local_path''"
| "kwarg_key (Category _) = ''category''"
| "kwarg_key (Priority _) = ''priority''"
| "kwarg_key (Source_updated_at _) = ''source_updated_at''"
| "kwarg_key (Updated_at _) = ''updated_at''"
| "kwarg_key (Other k) = k"

definition allowed :: "string list" where
  "allowed = [''description'', ''github_url'', ''local_path'', ''category'', ''priority'',
              ''source_updated_at'']"

definition parameter_names :: "string list" where
  "parameter_names = [''self'', ''name'']"

text \<open>Whether \<open>sqlite3\<close> can bind the value of an assignment.\<close>

fun bindable :: "kwarg \<Rightarrow> bool" where
  "bindable (Priority v) = sqlite_integer v"
| "bindable _ = True"

text \<open>One assignment \<open>k = ?\<close> of the SET clause, applied to a row.\<close>

fun set_column :: "kwarg \<Rightarrow> prompt_document \<Rightarrow> prompt_document" where
  "set_column (Description v) d = d\<lparr>d_description := v\<rparr>"
| "set_column (Github_url v) d = d\<lparr>d_github_url := v\<rparr>"
| "set_column (Local_path v) d = d\<lparr>d_local_path := v\<rparr>"
| "set_column (Category v) d = d\<lparr>d_category := v\<rparr>"
| "set_column (Priority v) d = d\<lparr>d_priority := v\<rparr>"
| "set_column (Source_updated_at v) d = d\<lparr>d_source_updated_at := v\<rparr>"
| "set_column (Updated_at v) d = d\<lparr>d_updated_at := v\<rparr>"
| "set_column (Other k) d = d"

text \<open>
  \<open>update_document\<close>: the dict comprehension keeps the allow-listed keywords; with none
  left the function returns \<open>False\<close> before it opens a connection. Otherwise
  \<open>updated_at\<close> joins the updates; binding a value that is no SQLite INTEGER raises
  and nothing is written; else the UPDATE assigns the updates to every row named
  \<open>name\<close>, and the function returns \<open>True\<close> whatever the UPDATE matched.
\<close>

definition update_document ::
  "store \<Rightarrow> string \<Rightarrow> kwarg list \<Rightarrow> string \<Rightarrow> (db_error + bool) \<times> store" where
  "update_document s name kwargs now =
     (if filter (\<lambda>a. kwarg_key a \<in> set parameter_names) kwargs \<noteq> [] then (Inl TypeError, s)
      else
        let updates = filter (\<lambda>a. kwarg_key a \<in> set allowed) kwargs
        in if updates = [] then (Inr False, s)
           else
             let updates' = updates @ [Updated_at now]
             in if \<not> list_all bindable updates' then (Inl OverflowError, s)
                else (Inr True,
                      s\<lparr>prompt_documents :=
                           map (\<lambda>d. if d_name d = name then fold set_column updates' d
                                     else d)
                             (prompt_documents s)\<rparr>))"

text \<open>\<open>delete_document\<close> reports whether the DELETE removed a row.\<close>

definition delete_document :: "store \<Rightarrow> string \<Rightarrow> bool \<times> store" where
  "delete_document s name =
     (let rowcount = length (filter (\<lambda>d. d_name d = name) (prompt_documents s))
      in (rowcount > 0,
          s\<lparr>prompt_documents := filter (\<lambda>d. d_name d \<noteq> name) (prompt_documents s)\<rparr>))"

subsection \<open>Conversations\<close>

definition create_conversation :: "store \<Rightarrow> string \<Rightarrow> string option \<Rightarrow> string \<Rightarrow> nat \<times> store" where
  "create_conversation s session_id agent_name now =
     (let lastrowid = next_rowid (conversations_seq s) (map c_id (conversations s))
      in (lastrowid,
          s\<lparr>conversations := conversations s @
               [\<lparr>c_id = lastrowid, c_session_id = session_id, c_started_at = now,
                 c_ended_at = None, c_agent_name = agent_name, c_status = ''active''\<rparr>],
             conversations_seq := lastrowid\<rparr>))"

definition end_conversation :: "store \<Rightarrow> nat \<Rightarrow> string \<Rightarrow> store" where
  "end_conversation s conversation_id now =
     s\<lparr>conversations :=
          map (\<lambda>c. if c_id c = conversation_id
                   then c\<lparr>c_ended_at := Some now, c_status := ''completed''\<rparr> else c)
            (conversations s)\<rparr>"

text \<open>
  \<open>get_active_conversation\<close>: \<open>ORDER BY id DESC LIMIT 1\<close> and \<open>fetchone\<close> give the
  matching row with the greatest id, or \<open>None\<close>.
\<close>

definition get_active_conversation :: "store \<Rightarrow> string \<Rightarrow> conversation option" where
  "get_active_conversation s session_id =
     (case rev (sort_key c_id
            (filter (\<lambda>c. c_session_id c = session_id \<and> c_status c = ''active'')
               (conversations s))) of
        [] \<Rightarrow> None
      | row # _ \<Rightarrow> Some row)"

subsection \<open>Messages\<close>

definition add_message :: "store \<Rightarrow> nat \<Rightarrow> string \<Rightarrow> string \<Rightarrow> string \<Rightarrow> nat \<times> store" where
  "add_message s conversation_id role content now =
     (let lastrowid = next_rowid (messages_seq s) (map m_id (messages s))
      in (lastrowid,
          s\<lparr>messages := messages s @
               [\<lparr>m_id = lastrowid, m_conversation_id = conversation_id, m_role = role,
                 m_content = content, m_timestamp = now\<rparr>],
             messages_seq := lastrowid\<rparr>))"

text \<open>Python's truth test on an optional integer: \<open>None\<close> and \<open>0\<close> are false.\<close>

fun truthy_int :: "int option \<Rightarrow> bool" where
  "truthy_int None = False"
| "truthy_int (Some i) = (i \<noteq> 0)"

text \<open>
  SQL's \<open>LIMIT n\<close> with the number pasted into the statement: the first \<open>n\<close> rows; a
  negative \<open>n\<close> means no limit in SQLite; a literal that is no signed 64-bit integer
  is read as a real number and the statement fails with \<open>datatype mismatch\<close>, which
  \<open>sqlite3\<close> raises as an \<open>IntegrityError\<close>.
\<close>

definition sql_limit :: "int \<Rightarrow> 'a list \<Rightarrow> db_error + 'a list" where
  "sql_limit n rows =
     (if \<not> sqlite_integer n then Inl (IntegrityError ''datatype mismatch'')
      else if n < 0 then Inr rows
      else Inr (take (nat n) rows))"

text \<open>The query of \<open>get_messages\<close> before any LIMIT clause is added to it.\<close>

definition select_messages :: "store \<Rightarrow> nat \<Rightarrow> message list" where
  "select_messages s conversation_id =
     sort_key m_id (filter (\<lambda>m. m_conversation_id m = conversation_id) (messages s))"

text \<open>\<open>get_messages\<close>: the LIMIT clause is added only when \<open>limit\<close> is true.\<close>

definition get_messages :: "store \<Rightarrow> nat \<Rightarrow> int option \<Rightarrow> db_error + message list" where
  "get_messages s conversation_id limit =
     (let rows = select_messages s conversation_id
      in if truthy_int limit
         then (case limit of Some n \<Rightarrow> sql_limit n rows | None \<Rightarrow> Inr rows)
         else Inr rows)"

section \<open>The conversation manager (src/modules/conversation.py)\<close>

text \<open>
  The manager holds the database, its session id and the id of the conversation it
  tracks (\<open>Optional[int]\<close>). Its methods mutate the manager and the database; here
  they return the manager after the call, the database inside it.
\<close>

record manager =
  db :: store
  session_id :: string
  conversation_id :: "nat option"

text \<open>Python's truth test on \<open>self.conversation_id\<close>: \<open>None\<close> and \<open>0\<close> are false.\<close>

fun truthy_id :: "nat option \<Rightarrow> bool" where
  "truthy_id None = False"
| "truthy_id (Some i) = (i \<noteq> 0)"

definition ensure_conversation :: "manager \<Rightarrow> string \<Rightarrow> manager" where
  "ensure_conversation m now =
     (case get_active_conversation (db m) (session_id m) of
        Some conv \<Rightarrow> m\<lparr>conversation_id := Some (c_id conv)\<rparr>
      | None \<Rightarrow>
          (let (i, s') = create_conversation (db m) (session_id m) None now
           in m\<lparr>db := s', conversation_id := Some i\<rparr>))"

text \<open>
  \<open>__init__\<close>: \<open>session_id or str(uuid.uuid4())[:8]\<close> falls back to the fresh
  identifier \<open>uuid8\<close> when no session id (or an empty one) is given.
\<close>

definition new_manager :: "store \<Rightarrow> string option \<Rightarrow> string \<Rightarrow> string \<Rightarrow> manager" where
  "new_manager s sid uuid8 now =
     ensure_conversation
       \<lparr>db = s,
        session_id = (case sid of Some t \<Rightarrow> if t \<noteq> [] then t else uuid8 | None \<Rightarrow> uuid8),
        conversation_id = None\<rparr> now"

text \<open>
  \<open>new_conversation\<close> takes two time stamps: the one \<open>end_conversation\<close> reads
  and the one \<open>create_conversation\<close> reads.
\<close>

definition new_conversation ::
  "manager \<Rightarrow> string option \<Rightarrow> string \<Rightarrow> string \<Rightarrow> nat \<times> manager" where
  "new_conversation m agent_name now_end now_create =
     (let s1 = (if truthy_id (conversation_id m)
                then (case conversation_id m of
                        Some a \<Rightarrow> end_conversation (db m) a now_end | None \<Rightarrow> db m)
                else db m);
          (i, s2) = create_conversation s1 (session_id m) agent_name now_create
      in (i, m\<lparr>db := s2, conversation_id := Some i\<rparr>))"

text \<open>
  \<open>add_message\<close> of the manager. Were \<open>conversation_id\<close> still \<open>None\<close> at the
  INSERT, the \<open>NOT NULL\<close> constraint of \<open>messages.conversation_id\<close> would raise;
  the manager comes back as it stood when the exception left the method.
\<close>

definition mgr_add_message ::
  "manager \<Rightarrow> string \<Rightarrow> string \<Rightarrow> string \<Rightarrow> string \<Rightarrow> db_error option \<times> manager" where
  "mgr_add_message m role content now_ensure now =
     (let m1 = (if \<not> truthy_id (conversation_id m) then ensure_conversation m now_ensure
                else m)
      in case conversation_id m1 of
           None \<Rightarrow>
             (Some (IntegrityError ''NOT NULL constraint failed: messages.conversation_id''),
              m1)
         | Some c \<Rightarrow> (None, m1\<lparr>db := snd (add_message (db m1) c role content now)\<rparr>))"

definition mgr_get_messages :: "manager \<Rightarrow> int option \<Rightarrow> db_error + message list" where
  "mgr_get_messages m limit =
     (if \<not> truthy_id (conversation_id m) then Inr []
      else case conversation_id m of
             Some c \<Rightarrow> get_messages (db m) c limit | None \<Rightarrow> Inr [])"

text \<open>\<open>sep.join(lines)\<close>.\<close>

fun join :: "string \<Rightarrow> string list \<Rightarrow> string" where
  "join sep [] = []"
| "join sep [l] = l"
| "join sep (l # ls) = l @ sep @ join sep ls"

definition context_line :: "message \<Rightarrow> string" where
  "context_line msg =
     (let role = (if m_role msg = ''user'' then ''User'' else ''Assistant'')
      in role @ '': '' @ m_content msg)"

definition get_context_for_claude :: "manager \<Rightarrow> int \<Rightarrow> db_error + string" where
  "get_context_for_claude m limit =
     (case mgr_get_messages m (Some limit) of
        Inl e \<Rightarrow> Inl e
      | Inr msgs \<Rightarrow>
          if msgs = [] then Inr []
          else Inr (join [CHR 0x0A] (map context_line msgs)))"

text \<open>
  A session: the calls a caller makes on one manager, one after the other, each with
  the time stamps it reads.
\<close>

datatype call =
    Ensure string
  | New_conversation "string option" string string
  | Add_message string string string string

fun do_call :: "manager \<Rightarrow> call \<Rightarrow> manager" where
  "do_call m (Ensure now) = ensure_conversation m now"
| "do_call m (New_conversation agent_name now_end now_create) =
     snd (new_conversation m agent_name now_end now_create)"
| "do_call m (Add_message role content now_ensure now) =
     snd (mgr_add_message m role content now_ensure now)"

definition do_calls :: "manager \<Rightarrow> call list \<Rightarrow> manager" where
  "do_calls m calls = fold (\<lambda>c m'. do_call m' c) calls m"

section \<open>Scenarios\<close>

text \<open>
  Appending a sequence of messages: each entry is the conversation id, the role, the
  content and the time stamp of one \<open>add_message\<close> call, in the order of the calls.
\<close>

fun add_messages :: "store \<Rightarrow> (nat \<times> string \<times> string \<times> string) list \<Rightarrow> store" where
  "add_messages s [] = s"
| "add_messages s ((c, role, content, now) # es) =
     add_messages (snd (add_message s c role content now)) es"

text \<open>What a stored message says of the call that appended it.\<close>

definition entry_of :: "message \<Rightarrow> nat \<times> string \<times> string \<times> string" where
  "entry_of m = (m_conversation_id m, m_role m, m_content m, m_timestamp m)"

definition history3 :: "(nat \<times> string \<times> string \<times> string) list" where
  "history3 = [(1, ''user'', ''a'', ''t1''), (2, ''user'', ''x'', ''t2''),
               (1, ''assistant'', ''b'', ''t3'')]"

text \<open>
  Appending a sequence of messages through one manager: each entry is the role, the
  content and the two time stamps of one \<open>add_message\<close> call on the manager.
\<close>

fun mgr_add_messages :: "manager \<Rightarrow> (string \<times> string \<times> string \<times> string) list \<Rightarrow> manager" where
  "mgr_add_messages m [] = m"
| "mgr_add_messages m ((role, content, now_ensure, now) # es) =
     mgr_add_messages (snd (mgr_add_message m role content now_ensure now)) es"

text \<open>
  Inserting a sequence of documents: each entry is the argument tuple of one
  \<open>add_document\<close> call and the time stamp it reads. A call that raises leaves the store
  as it was and the caller goes on, as \<open>main.py\<close> does.
\<close>

type_synonym doc_args =
  "string \<times> string option \<times> string option \<times> string option \<times> string option \<times> int
     \<times> string option"

fun add_documents :: "store \<Rightarrow> (doc_args \<times> string) list \<Rightarrow> store" where
  "add_documents s [] = s"
| "add_documents s (((name, description, github_url, local_path, category, priority,
       source_updated_at), now) # rest) =
     add_documents
       (snd (add_document s name description github_url local_path category priority
               source_updated_at now)) rest"

definition arg_name :: "doc_args \<times> string \<Rightarrow> string" where
  "arg_name e = fst (fst e)"

text \<open>The argument tuples \<open>sqlite3\<close> can bind: the priority is an SQLite INTEGER.\<close>

definition insertable :: "doc_args \<Rightarrow> bool" where
  "insertable a = (case a of (name, description, github_url, local_path, category, priority,
       source_updated_at) \<Rightarrow> sqlite_integer priority)"

text \<open>What a stored document says of the call that inserted it.\<close>

definition doc_fields :: "prompt_document \<Rightarrow> doc_args" where
  "doc_fields d = (d_name d, d_description d, d_github_url d, d_local_path d, d_category d,
                   d_priority d, d_source_updated_at d)"

definition args_key :: "doc_args \<Rightarrow> int \<times> string option \<times> string" where
  "args_key a = (case a of (name, description, github_url, local_path, category, priority,
       source_updated_at) \<Rightarrow> (- priority, category, name))"

text \<open>
  The order of the specification, in its words: by descending priority, then by
  category, then by name. A document without a category comes before those with one,
  and strings compare bytewise.
\<close>

definition listed_before :: "prompt_document \<Rightarrow> prompt_document \<Rightarrow> bool" where
  "listed_before d e =
     (d_priority d > d_priority e \<or>
      (d_priority d = d_priority e \<and>
        (d_category d < d_category e \<or>
         (d_category d = d_category e \<and> d_name d \<le> d_name e))))"

text \<open>
  The window the specification's transcript is cut from, in its words: the last
  \<open>limit\<close> messages of the history.
\<close>

definition recent_window :: "int \<Rightarrow> 'a list \<Rightarrow> 'a list" where
  "recent_window limit msgs = drop (length msgs - nat limit) msgs"

text \<open>A conversation row counts for a session when it is that session's and active.\<close>

definition active_for :: "string \<Rightarrow> conversation \<Rightarrow> bool" where
  "active_for sid c = (c_session_id c = sid \<and> c_status c = ''active'')"

text \<open>
  The lifecycle discipline of one manager: conversation ids are distinct and positive,
  every conversation is the manager's session's, and an active one is the tracked one.
\<close>

definition tracks_active :: "manager \<Rightarrow> bool" where
  "tracks_active m =
     (distinct (map c_id (conversations (db m))) \<and>
      (\<forall>c \<in> set (conversations (db m)).
          c_session_id c = session_id m \<and> 0 < c_id c \<and>
          (c_status c = ''active'' \<longrightarrow> conversation_id m = Some (c_id c))))"

subsection \<open>Concrete stores and sessions\<close>

definition store1 :: store where
  "store1 = snd (add_document init_db ''x'' (Some ''first'') None None (Some ''coder'') 10
                   None ''t0'')"

definition doc_x :: doc_args where
  "doc_x = (''x'', None, None, None, None, 10, None)"

definition doc_y :: doc_args where
  "doc_y = (''y'', None, None, None, None, 90, None)"

definition doc_z :: doc_args where
  "doc_z = (''z'', None, None, None, Some ''coder'', 90, None)"

definition doc_w :: doc_args where
  "doc_w = (''w'', None, None, None, Some ''coder'', 90, None)"

definition seed_a :: "(doc_args \<times> string) list" where
  "seed_a = [(doc_x, ''t1''), (doc_z, ''t2''), (doc_y, ''t3''), (doc_w, ''t4'')]"

definition seed_b :: "(doc_args \<times> string) list" where
  "seed_b = [(doc_w, ''t5''), (doc_y, ''t6''), (doc_x, ''t7''), (doc_z, ''t8'')]"

definition chat2 :: manager where
  "chat2 = do_calls (new_manager init_db (Some ''s1'') ''0a1b2c3d'' ''t0'')
     [Add_message ''user'' ''a'' ''t1'' ''t1'', Add_message ''assistant'' ''b'' ''t2'' ''t2'']"

definition session3 :: "call list" where
  "session3 = [Add_message ''user'' ''a'' ''t1'' ''t1'', New_conversation None ''t2'' ''t3'',
               Ensure ''t4'', New_conversation (Some ''helper'') ''t5'' ''t6'',
               Add_message ''user'' ''b'' ''t7'' ''t7'']"


section \<open>Row ids\<close>

lemma fold_max_ge: "a \<le> fold max ids (a::nat)"
proof (induction ids arbitrary: a)
  case Nil
  then show ?case by simp
next
  case (Cons y ys)
  have "a \<le> max y a" by simp
  also have "\<dots> \<le> fold max ys (max y a)" by (rule Cons.IH)
  finally show ?case by simp
qed

lemma fold_max_mem: "x \<in> set ids \<Longrightarrow> x \<le> fold max ids (a::nat)"
proof (induction ids arbitrary: a)
  case Nil
  then show ?case by simp
next
  case (Cons y ys)
  show ?case
  proof (cases "x = y")
    case True
    have "max y a \<le> fold max ys (max y a)" by (rule fold_max_ge)
    with True show ?thesis by simp
  next
    case False
    with Cons show ?thesis by simp
  qed
qed

lemma next_rowid_gt: "x \<in> set ids \<Longrightarrow> x < next_rowid seq ids"
  unfolding next_rowid_def using fold_max_mem [of x ids 0] by simp

lemma next_rowid_pos: "0 < next_rowid seq ids"
  by (simp add: next_rowid_def)

section \<open>Messages come back in the order they were appended\<close>

lemma insort_key_snoc:
  "f y \<le> f x \<Longrightarrow> insort_key f y (zs @ [x]) = insort_key f y zs @ [x]"
  by (induction zs) auto

lemma sort_key_snoc:
  "\<forall>y \<in> set xs. f y \<le> f x \<Longrightarrow> sort_key f (xs @ [x]) = sort_key f xs @ [x]"
  by (induction xs) (auto simp: insort_key_snoc)

lemma select_messages_add_message:
  "select_messages (snd (add_message s c' role content now)) c =
     select_messages s c @
       (if c' = c then [\<lparr>m_id = next_rowid (messages_seq s) (map m_id (messages s)),
           m_conversation_id = c', m_role = role, m_content = content, m_timestamp = now\<rparr>]
        else [])"
proof -
  have "\<forall>y \<in> set (filter (\<lambda>m. m_conversation_id m = c) (messages s)).
          m_id y \<le> next_rowid (messages_seq s) (map m_id (messages s))"
    using next_rowid_gt [of _ "map m_id (messages s)" "messages_seq s"]
    by (auto intro: less_imp_le)
  then show ?thesis
    by (simp add: select_messages_def add_message_def Let_def sort_key_snoc)
qed

lemma entry_of_row:
  "entry_of \<lparr>m_id = i, m_conversation_id = c, m_role = r, m_content = t,
      m_timestamp = n\<rparr> = (c, r, t, n)"
  by (simp add: entry_of_def)

lemma select_messages_add_messages:
  "map entry_of (select_messages (add_messages s es) c) =
     map entry_of (select_messages s c) @ filter (\<lambda>e. fst e = c) es"
proof (induction es arbitrary: s)
  case Nil
  then show ?case by simp
next
  case (Cons e es)
  obtain c' r t n where e: "e = (c', r, t, n)" by (cases e) auto
  show ?case
    by (simp add: e Cons select_messages_add_message entry_of_row)
qed

lemma get_messages_no_limit: "get_messages s c None = Inr (select_messages s c)"
  by (simp add: get_messages_def)

lemma get_messages_limit:
  "0 < k \<Longrightarrow> int k < 2 ^ 63 \<Longrightarrow>
   get_messages s c (Some (int k)) = Inr (take k (select_messages s c))"
  by (simp add: get_messages_def sql_limit_def sqlite_integer_def Let_def)

text \<open>A limit that is no signed 64-bit integer makes the query fail.\<close>

lemma get_messages_limit_out_of_range:
  "\<not> sqlite_integer n \<Longrightarrow>
   get_messages s c (Some n) = Inl (IntegrityError ''datatype mismatch'')"
proof -
  assume n: "\<not> sqlite_integer n"
  then have "n \<noteq> 0" by (auto simp: sqlite_integer_def)
  with n show ?thesis by (simp add: get_messages_def sql_limit_def)
qed

lemma select_messages_sorted: "sorted (map m_id (select_messages s c))"
  by (simp add: select_messages_def)

lemma distinct_add_message:
  "distinct (map m_id (messages s)) \<Longrightarrow>
   distinct (map m_id (messages (snd (add_message s c r t n))))"
  using next_rowid_gt [of "next_rowid (messages_seq s) (map m_id (messages s))"
      "map m_id (messages s)" "messages_seq s"]
  by (auto simp: add_message_def Let_def)

lemma distinct_add_messages:
  "distinct (map m_id (messages s)) \<Longrightarrow> distinct (map m_id (messages (add_messages s es)))"
proof (induction es arbitrary: s)
  case Nil
  then show ?case by simp
next
  case (Cons e es)
  obtain c' r t n where e: "e = (c', r, t, n)" by (cases e) auto
  show ?case using Cons.prems by (simp add: e Cons.IH distinct_add_message)
qed

lemma select_messages_strict:
  "distinct (map m_id (messages s)) \<Longrightarrow> sorted_wrt (<) (map m_id (select_messages s c))"
  by (simp add: select_messages_def strict_sorted_iff distinct_map_filter distinct_map
        inj_on_def)

text \<open>
  C4, as the specification states it, promises the first \<open>k\<close> messages for every
  natural number \<open>k\<close>. For \<open>k = 0\<close> that is none, but the code tests \<open>if limit:\<close>,
  so a limit of 0 adds no LIMIT clause and the one stored message comes back. For
  \<open>k = 2^63\<close> the pasted literal is no SQLite integer and the query raises where the
  claim promises the one stored message.
\<close>

theorem get_messages_limit_counterexample:
  "get_messages (add_messages init_db [(1, ''user'', ''a'', ''t1'')]) 1 (Some (int 0)) \<noteq>
     Inr (take 0 (select_messages (add_messages init_db [(1, ''user'', ''a'', ''t1'')]) 1))
   \<and> get_messages (add_messages init_db [(1, ''user'', ''a'', ''t1'')]) 1
        (Some (int (2 ^ 63))) \<noteq>
     Inr (take (2 ^ 63)
            (select_messages (add_messages init_db [(1, ''user'', ''a'', ''t1'')]) 1))"
  by (simp add: get_messages_def select_messages_def sql_limit_def sqlite_integer_def
        add_message_def init_db_def Let_def)

text \<open>What the code returns at the two limits.\<close>

lemma get_messages_limit_edges:
  "get_messages (add_messages init_db [(1, ''user'', ''a'', ''t1'')]) 1 (Some 0) =
     Inr [\<lparr>m_id = 1, m_conversation_id = 1, m_role = ''user'', m_content = ''a'',
           m_timestamp = ''t1''\<rparr>]
   \<and> get_messages (add_messages init_db [(1, ''user'', ''a'', ''t1'')]) 1 (Some (2 ^ 63)) =
     Inl (IntegrityError ''datatype mismatch'')"
  by (simp add: get_messages_def select_messages_def sql_limit_def sqlite_integer_def
        add_message_def init_db_def next_rowid_def Let_def)

text \<open>
  C4 (amended): whatever the store held before, after a sequence of \<open>add_message\<close>
  calls \<open>get_messages\<close> without a limit returns the messages of conversation \<open>c\<close>
  that were there, followed by the appended ones of \<open>c\<close> in the order of the calls; the
  result is ascending in \<open>id\<close>, strictly so when the ids in the table are distinct, as
  the primary key makes them; and for every \<open>k\<close> from 1 to \<open>2^63 - 1\<close>,
  \<open>get_messages\<close> with \<open>limit = k\<close> returns the first \<open>k\<close> messages of that result.
\<close>

theorem get_messages_appended_order:
  "get_messages (add_messages s es) c None = Inr (select_messages (add_messages s es) c)
   \<and> get_messages s c None = Inr (select_messages s c)
   \<and> map entry_of (select_messages (add_messages s es) c) =
       map entry_of (select_messages s c) @ filter (\<lambda>e. fst e = c) es
   \<and> sorted (map m_id (select_messages (add_messages s es) c))
   \<and> (distinct (map m_id (messages s)) \<longrightarrow>
        sorted_wrt (<) (map m_id (select_messages (add_messages s es) c)))
   \<and> (0 < k \<and> int k < 2 ^ 63 \<longrightarrow>
        get_messages (add_messages s es) c (Some (int k)) =
          Inr (take k (select_messages (add_messages s es) c)))"
  by (simp add: get_messages_no_limit select_messages_add_messages select_messages_sorted
        select_messages_strict distinct_add_messages get_messages_limit)

theorem get_messages_appended_order_witness:
  "(0::nat) < 1 \<and> int 1 < 2 ^ 63 \<and> distinct (map m_id (messages init_db))
   \<and> map entry_of (select_messages (add_messages init_db history3) 1) =
       [(1, ''user'', ''a'', ''t1''), (1, ''assistant'', ''b'', ''t3'')]
   \<and> map entry_of (take 1 (select_messages (add_messages init_db history3) 1)) =
       [(1, ''user'', ''a'', ''t1'')]
   \<and> get_messages (add_messages init_db history3) 1 (Some (int 1)) =
       Inr (take 1 (select_messages (add_messages init_db history3) 1))
   \<and> sorted_wrt (<) (map m_id (select_messages (add_messages init_db history3) 1))"
proof -
  have e: "select_messages init_db 1 = []" "distinct (map m_id (messages init_db))"
    by (simp_all add: select_messages_def init_db_def)
  show ?thesis
    using get_messages_appended_order [of init_db history3 1 1] e
    by (simp add: history3_def take_map [symmetric])
qed

text \<open>
  C10: \<open>get_messages\<close> with \<open>limit = 0\<close> returns what it returns with no limit: all
  the messages of the conversation, ascending in \<open>id\<close>.
\<close>

theorem get_messages_limit_zero:
  "get_messages s c (Some 0) = get_messages s c None
   \<and> get_messages s c (Some 0) = Inr (select_messages s c)
   \<and> sorted (map m_id (select_messages s c))
   \<and> set (select_messages s c) = {m \<in> set (messages s). m_conversation_id m = c}"
  by (auto simp: get_messages_def select_messages_def)

section \<open>Prompt documents: duplicates and updates\<close>

lemma store1_eq: "store1 = \<lparr>prompt_documents =
       [\<lparr>d_id = 1, d_name = ''x'', d_description = Some ''first'', d_github_url = None,
           d_local_path = None, d_category = Some ''coder'', d_priority = 10,
           d_source_updated_at = None, d_created_at = ''t0'', d_updated_at = ''t0''\<rparr>],
       prompt_documents_seq = 1, conversations = [], conversations_seq = 0, messages = [],
       messages_seq = 0\<rparr>"
  by (simp add: store1_def add_document_def sqlite_integer_def init_db_def next_rowid_def)

text \<open>
  A priority that is no SQLite INTEGER cannot be bound: the call raises
  \<open>OverflowError\<close>, whether the name is taken or not, and the store is unchanged.
\<close>

lemma add_document_overflow:
  "\<not> sqlite_integer priority \<Longrightarrow>
   add_document s name description github_url local_path category priority
       source_updated_at now = (Inl OverflowError, s)"
  by (simp add: add_document_def)

text \<open>
  C2: when the store holds a document \<open>d\<close>, \<open>add_document\<close> with \<open>d\<close>'s name
  fails and the store, with it the row \<open>d\<close>, is what it was before; with a priority
  that is an SQLite INTEGER, as the column's values are, the failure is the integrity
  error of the \<open>UNIQUE\<close> constraint (the specification's DuplicateNameError).
\<close>

theorem add_document_duplicate:
  "d \<in> set (prompt_documents s) \<Longrightarrow>
   snd (add_document s (d_name d) description github_url local_path category priority
          source_updated_at now) = s
   \<and> (\<exists>e. fst (add_document s (d_name d) description github_url local_path category
                 priority source_updated_at now) = Inl e)
   \<and> (sqlite_integer priority \<longrightarrow>
        add_document s (d_name d) description github_url local_path category priority
            source_updated_at now =
          (Inl (IntegrityError ''UNIQUE constraint failed: prompt_documents.name''), s))"
  by (simp add: add_document_def)

theorem add_document_duplicate_witness:
  "hd (prompt_documents store1) \<in> set (prompt_documents store1)
   \<and> d_name (hd (prompt_documents store1)) = ''x''
   \<and> sqlite_integer 0
   \<and> add_document store1 ''x'' None None None None 0 None ''t1'' =
       (Inl (IntegrityError ''UNIQUE constraint failed: prompt_documents.name''), store1)"
proof -
  have h: "hd (prompt_documents store1) \<in> set (prompt_documents store1)"
    and n: "d_name (hd (prompt_documents store1)) = ''x''"
    by (simp_all add: store1_eq)
  have r: "sqlite_integer 0" by (simp add: sqlite_integer_def)
  from add_document_duplicate [OF h, of None None None None 0 None "''t1''"] h n r
  show ?thesis by simp
qed

text \<open>
  C5 says that \<open>update_document\<close> returns \<open>False\<close> for a name that is not stored. On
  the empty store, with the allow-listed field \<open>priority\<close>, the code writes nothing
  and returns \<open>True\<close>: it never reads the UPDATE's row count, which \<open>delete_document\<close>
  does read for the same question.
\<close>

theorem update_document_missing_returns_true:
  "get_document init_db ''ghost'' = None
   \<and> update_document init_db ''ghost'' [Priority 99] ''t1'' = (Inr True, init_db)
   \<and> delete_document init_db ''ghost'' = (False, init_db)"
  by (simp add: get_document_def update_document_def delete_document_def init_db_def
        allowed_def parameter_names_def sqlite_integer_def)

text \<open>
  The two ways \<open>update_document\<close> raises: a keyword that is one of the method's own
  parameters, and a priority that cannot be bound. Neither writes anything.
\<close>

lemma update_document_type_error:
  "a \<in> set kwargs \<Longrightarrow> kwarg_key a \<in> set parameter_names \<Longrightarrow>
   update_document s n kwargs now = (Inl TypeError, s)"
  by (auto simp: update_document_def filter_empty_conv)

lemma update_document_overflow:
  "\<not> sqlite_integer p \<Longrightarrow> update_document s n [Priority p] now = (Inl OverflowError, s)"
  by (simp add: update_document_def allowed_def parameter_names_def)

text \<open>
  C8: \<open>update_document\<close> with the single field \<open>priority\<close>, its value an SQLite
  INTEGER as 99 is, returns \<open>True\<close> and leaves the store as it was but for the rows
  named \<open>n\<close>, whose \<open>priority\<close> and \<open>updated_at\<close> are the new ones and whose other
  columns are unchanged; with keyword arguments none of which is allow-listed (none at
  all included), and none of which is a parameter of the method itself, it returns
  \<open>False\<close> and the store is unchanged.
\<close>

theorem update_document_priority_frame:
  "(sqlite_integer p \<longrightarrow>
      update_document s n [Priority p] now =
        (Inr True,
         s\<lparr>prompt_documents :=
              map (\<lambda>d. if d_name d = n then d\<lparr>d_priority := p, d_updated_at := now\<rparr> else d)
                (prompt_documents s)\<rparr>))
   \<and> ((\<forall>a \<in> set kwargs. kwarg_key a \<notin> set allowed \<and> kwarg_key a \<notin> set parameter_names) \<longrightarrow>
        update_document s n kwargs now = (Inr False, s))"
proof -
  have "(\<forall>a \<in> set kwargs. kwarg_key a \<notin> set allowed \<and> kwarg_key a \<notin> set parameter_names)
      \<Longrightarrow> filter (\<lambda>a. kwarg_key a \<in> set allowed) kwargs = []
        \<and> filter (\<lambda>a. kwarg_key a \<in> set parameter_names) kwargs = []"
    by (simp add: filter_empty_conv)
  moreover have "sqlite_integer p \<Longrightarrow>
      update_document s n [Priority p] now =
        (Inr True,
         s\<lparr>prompt_documents :=
              map (\<lambda>d. if d_name d = n then d\<lparr>d_priority := p, d_updated_at := now\<rparr> else d)
                (prompt_documents s)\<rparr>)"
    by (simp add: update_document_def allowed_def parameter_names_def Let_def)
  ultimately show ?thesis
    by (simp add: update_document_def Let_def)
qed

theorem update_document_priority_frame_witness:
  "sqlite_integer 99
   \<and> kwarg_key (Other ''colour'') \<notin> set allowed \<and> kwarg_key (Updated_at ''t9'') \<notin> set allowed
   \<and> kwarg_key (Other ''colour'') \<notin> set parameter_names
   \<and> kwarg_key (Updated_at ''t9'') \<notin> set parameter_names
   \<and> update_document store1 ''x'' [Other ''colour'', Updated_at ''t9''] ''t1'' =
       (Inr False, store1)
   \<and> update_document store1 ''x'' [] ''t1'' = (Inr False, store1)
   \<and> fst (update_document store1 ''x'' [Priority 99] ''t1'') = Inr True
   \<and> prompt_documents (snd (update_document store1 ''x'' [Priority 99] ''t1'')) =
       [\<lparr>d_id = 1, d_name = ''x'', d_description = Some ''first'', d_github_url = None,
           d_local_path = None, d_category = Some ''coder'', d_priority = 99,
           d_source_updated_at = None, d_created_at = ''t0'', d_updated_at = ''t1''\<rparr>]"
proof -
  have h: "\<forall>a \<in> set [Other ''colour'', Updated_at ''t9''].
      kwarg_key a \<notin> set allowed \<and> kwarg_key a \<notin> set parameter_names"
    by (simp add: allowed_def parameter_names_def)
  have r: "sqlite_integer 99" by (simp add: sqlite_integer_def)
  show ?thesis
    using h r
      update_document_priority_frame [of 99 store1 "''x''" "''t1''"
        "[Other ''colour'', Updated_at ''t9'']"]
      update_document_priority_frame [of 99 store1 "''x''" "''t1''" "[]"]
    by (simp add: store1_eq)
qed

section \<open>The transcript\<close>

text \<open>
  What the code does: one line for each message \<open>get_messages\<close> returns for the limit,
  in that order, and the empty string when no conversation is tracked.
\<close>

lemma get_context_for_claude_lines:
  "mgr_get_messages m (Some limit) = Inr msgs \<Longrightarrow>
   get_context_for_claude m limit = Inr (join [CHR 0x0A] (map context_line msgs))"
  by (simp add: get_context_for_claude_def)

lemma get_context_for_claude_untracked:
  "conversation_id m = None \<Longrightarrow> get_context_for_claude m limit = Inr []"
  by (simp add: get_context_for_claude_def mgr_get_messages_def)

text \<open>
  C7 takes the transcript from the last \<open>limit\<close> messages, as the docstring of
  \<open>get_context_for_claude\<close> ("recent conversation history") does. The code passes
  \<open>limit\<close> to \<open>get_messages\<close>, which cuts the oldest \<open>limit\<close> messages: with the
  history a, b and \<open>limit = 1\<close> the transcript is that of a, not that of b.
\<close>

theorem get_context_for_claude_oldest_window:
  "mgr_get_messages chat2 None = Inr (select_messages (db chat2) 1)
   \<and> map entry_of (select_messages (db chat2) 1) =
       [(1, ''user'', ''a'', ''t1''), (1, ''assistant'', ''b'', ''t2'')]
   \<and> get_context_for_claude chat2 1 = Inr ''User: a''
   \<and> join [CHR 0x0A] (map context_line (recent_window 1 (select_messages (db chat2) 1))) =
       ''Assistant: b''"
  by (simp add: chat2_def do_calls_def new_manager_def ensure_conversation_def
        get_active_conversation_def create_conversation_def next_rowid_def
        mgr_add_message_def add_message_def mgr_get_messages_def get_messages_def
        select_messages_def init_db_def Let_def get_context_for_claude_def sql_limit_def
        sqlite_integer_def context_line_def recent_window_def entry_of_def)

section \<open>The active conversation of a session\<close>

lemma get_active_conversation_alt:
  "get_active_conversation s sid =
     (case rev (sort_key c_id (filter (active_for sid) (conversations s))) of
        [] \<Rightarrow> None | row # _ \<Rightarrow> Some row)"
  by (simp add: get_active_conversation_def active_for_def [abs_def])

lemma get_active_Some:
  assumes "get_active_conversation s sid = Some c"
  shows "c \<in> set (conversations s) \<and> active_for sid c"
proof -
  from assms obtain rest where
    "rev (sort_key c_id (filter (active_for sid) (conversations s))) = c # rest"
    by (auto simp: get_active_conversation_alt split: list.splits)
  then have "c \<in> set (rev (sort_key c_id (filter (active_for sid) (conversations s))))"
    by simp
  then show ?thesis by simp
qed

lemma get_active_None:
  "get_active_conversation s sid = None \<longleftrightarrow> filter (active_for sid) (conversations s) = []"
proof -
  have "rev (sort_key c_id (filter (active_for sid) (conversations s))) = [] \<longleftrightarrow>
        filter (active_for sid) (conversations s) = []"
    by (metis length_0_conv length_rev length_sort)
  then show ?thesis
    by (auto simp: get_active_conversation_alt split: list.splits)
qed

lemma get_active_single:
  "filter (active_for sid) (conversations s) = [c] \<Longrightarrow> get_active_conversation s sid = Some c"
  by (simp add: get_active_conversation_alt)

lemma create_conversation_rows:
  "conversations (snd (create_conversation s sid agent now)) =
     conversations s @
       [\<lparr>c_id = next_rowid (conversations_seq s) (map c_id (conversations s)),
         c_session_id = sid, c_started_at = now, c_ended_at = None,
         c_agent_name = agent, c_status = ''active''\<rparr>]"
  and create_conversation_id:
  "fst (create_conversation s sid agent now) =
     next_rowid (conversations_seq s) (map c_id (conversations s))"
  by (simp_all add: create_conversation_def Let_def)

lemma ensure_conversation_found:
  "get_active_conversation (db m) (session_id m) = Some c \<Longrightarrow>
   ensure_conversation m now = m\<lparr>conversation_id := Some (c_id c)\<rparr>"
  by (simp add: ensure_conversation_def)

lemma ensure_conversation_created:
  "get_active_conversation (db m) (session_id m) = None \<Longrightarrow>
   ensure_conversation m now =
     m\<lparr>db := snd (create_conversation (db m) (session_id m) None now),
       conversation_id := Some (fst (create_conversation (db m) (session_id m) None now))\<rparr>"
  by (simp add: ensure_conversation_def split_beta)

lemma get_active_after_create:
  assumes "get_active_conversation s sid = None"
  shows "get_active_conversation (snd (create_conversation s sid agent now)) sid =
     Some \<lparr>c_id = next_rowid (conversations_seq s) (map c_id (conversations s)),
         c_session_id = sid, c_started_at = now, c_ended_at = None,
         c_agent_name = agent, c_status = ''active''\<rparr>"
proof -
  from assms have "filter (active_for sid) (conversations s) = []"
    by (simp add: get_active_None)
  then show ?thesis
    by (intro get_active_single) (simp add: create_conversation_rows active_for_def)
qed
lemma ensure_conversation_twice:
  "ensure_conversation (ensure_conversation m now1) now2 = ensure_conversation m now1"
proof (cases "get_active_conversation (db m) (session_id m)")
  case None
  let ?m1 = "ensure_conversation m now1"
  have m1: "?m1 = m\<lparr>db := snd (create_conversation (db m) (session_id m) None now1),
       conversation_id := Some (fst (create_conversation (db m) (session_id m) None now1))\<rparr>"
    using None by (rule ensure_conversation_created)
  have "get_active_conversation (db ?m1) (session_id ?m1) =
     Some \<lparr>c_id = next_rowid (conversations_seq (db m)) (map c_id (conversations (db m))),
         c_session_id = session_id m, c_started_at = now1, c_ended_at = None,
         c_agent_name = None, c_status = ''active''\<rparr>"
    using get_active_after_create [OF None] by (simp add: m1)
  then have "ensure_conversation ?m1 now2 =
      ?m1\<lparr>conversation_id := Some (next_rowid (conversations_seq (db m)) (map c_id (conversations (db m))))\<rparr>"
    by (simp add: ensure_conversation_found)
  also have "\<dots> = ?m1"
    by (simp add: m1 create_conversation_id)
  finally show ?thesis .
next
  case (Some c)
  let ?m1 = "ensure_conversation m now1"
  have m1: "?m1 = m\<lparr>conversation_id := Some (c_id c)\<rparr>"
    using Some by (rule ensure_conversation_found)
  have "get_active_conversation (db ?m1) (session_id ?m1) = Some c"
    using Some by (simp add: m1)
  then have "ensure_conversation ?m1 now2 = ?m1\<lparr>conversation_id := Some (c_id c)\<rparr>"
    by (rule ensure_conversation_found)
  also have "\<dots> = ?m1" by (simp add: m1)
  finally show ?thesis .
qed

text \<open>
  C9: a second \<open>_ensure_conversation\<close> right after a first leaves the tracked
  conversation id as the first call set it and adds no conversation row; it leaves the
  manager and the whole store as they were.
\<close>

theorem ensure_conversation_idempotent:
  "conversation_id (ensure_conversation (ensure_conversation m now1) now2) =
     conversation_id (ensure_conversation m now1)
   \<and> conversations (db (ensure_conversation (ensure_conversation m now1) now2)) =
     conversations (db (ensure_conversation m now1))
   \<and> ensure_conversation (ensure_conversation m now1) now2 = ensure_conversation m now1"
  by (simp only: ensure_conversation_twice)


section \<open>At most one active conversation\<close>

lemma tracks_active_no_active:
  assumes "tracks_active m" "\<not> truthy_id (conversation_id m)"
  shows "\<forall>c \<in> set (conversations (db m)). c_status c \<noteq> ''active''"
proof
  fix c assume c: "c \<in> set (conversations (db m))"
  show "c_status c \<noteq> ''active''"
  proof
    assume "c_status c = ''active''"
    with assms(1) c have "conversation_id m = Some (c_id c)" "0 < c_id c"
      by (auto simp: tracks_active_def)
    with assms(2) show False by simp
  qed
qed

lemma tracks_active_create:
  assumes inv: "distinct (map c_id (conversations s))"
      "\<forall>c \<in> set (conversations s). c_session_id c = sid \<and> 0 < c_id c \<and> c_status c \<noteq> ''active''"
  shows "tracks_active
           \<lparr>db = snd (create_conversation s sid agent now), session_id = sid,
            conversation_id = Some (fst (create_conversation s sid agent now))\<rparr>"
proof -
  let ?i = "next_rowid (conversations_seq s) (map c_id (conversations s))"
  have "?i \<notin> set (map c_id (conversations s))"
    using next_rowid_gt [of ?i "map c_id (conversations s)" "conversations_seq s"] by auto
  with inv show ?thesis
    by (auto simp: tracks_active_def create_conversation_rows create_conversation_id
          next_rowid_pos)
qed

lemma tracks_active_ensure:
  assumes "tracks_active m"
  shows "tracks_active (ensure_conversation m now)"
proof (cases "get_active_conversation (db m) (session_id m)")
  case (Some c)
  then have "c \<in> set (conversations (db m))" "c_status c = ''active''"
    using get_active_Some [OF Some] by (simp_all add: active_for_def)
  with assms have "conversation_id m = Some (c_id c)"
    by (auto simp: tracks_active_def)
  then have "ensure_conversation m now = m"
    by (simp add: ensure_conversation_found [OF Some])
  with assms show ?thesis by simp
next
  case None
  then have "filter (active_for (session_id m)) (conversations (db m)) = []"
    by (simp add: get_active_None)
  then have "\<forall>c \<in> set (conversations (db m)). \<not> active_for (session_id m) c"
    by (simp add: filter_empty_conv)
  with assms have
    "\<forall>c \<in> set (conversations (db m)).
        c_session_id c = session_id m \<and> 0 < c_id c \<and> c_status c \<noteq> ''active''"
    by (auto simp: tracks_active_def active_for_def)
  moreover from assms have "distinct (map c_id (conversations (db m)))"
    by (simp add: tracks_active_def)
  ultimately have "tracks_active
           \<lparr>db = snd (create_conversation (db m) (session_id m) None now),
            session_id = session_id m,
            conversation_id = Some (fst (create_conversation (db m) (session_id m) None now))\<rparr>"
    by (rule tracks_active_create [rotated])
  moreover have "ensure_conversation m now =
      \<lparr>db = snd (create_conversation (db m) (session_id m) None now),
            session_id = session_id m,
            conversation_id = Some (fst (create_conversation (db m) (session_id m) None now))\<rparr>"
    by (simp add: ensure_conversation_created [OF None])
  ultimately show ?thesis by simp
qed

lemma end_conversation_rows:
  "conversations (end_conversation s a now) =
     map (\<lambda>c. if c_id c = a then c\<lparr>c_ended_at := Some now, c_status := ''completed''\<rparr> else c)
       (conversations s)"
  by (simp add: end_conversation_def)

lemma end_conversation_ids:
  "map c_id (conversations (end_conversation s a now)) = map c_id (conversations s)"
  by (simp add: end_conversation_rows o_def if_distrib [of c_id] cong: if_cong)

lemma end_conversation_seq:
  "conversations_seq (end_conversation s a now) = conversations_seq s"
  by (simp add: end_conversation_def)

lemma new_conversation_eq:
  "new_conversation m agent now_end now_create =
     (let s1 = (case conversation_id m of
                  Some a \<Rightarrow> if a \<noteq> 0 then end_conversation (db m) a now_end else db m
                | None \<Rightarrow> db m)
      in (fst (create_conversation s1 (session_id m) agent now_create),
          \<lparr>db = snd (create_conversation s1 (session_id m) agent now_create),
           session_id = session_id m,
           conversation_id = Some (fst (create_conversation s1 (session_id m) agent now_create))\<rparr>))"
  by (cases "conversation_id m") (simp_all add: new_conversation_def Let_def split_beta)

lemma tracks_active_new:
  assumes "tracks_active m"
  shows "tracks_active (snd (new_conversation m agent now_end now_create))"
proof -
  define s1 where "s1 = (case conversation_id m of
                  Some a \<Rightarrow> if a \<noteq> 0 then end_conversation (db m) a now_end else db m
                | None \<Rightarrow> db m)"
  have d: "distinct (map c_id (conversations s1))"
    using assms by (auto simp: s1_def tracks_active_def end_conversation_ids split: option.splits)
  have "\<forall>c \<in> set (conversations s1).
        c_session_id c = session_id m \<and> 0 < c_id c \<and> c_status c \<noteq> ''active''"
  proof (cases "truthy_id (conversation_id m)")
    case True
    then obtain a where a: "conversation_id m = Some a" "a \<noteq> 0"
      by (cases "conversation_id m") auto
    then have "s1 = end_conversation (db m) a now_end" by (simp add: s1_def)
    with assms a show ?thesis
      by (auto simp: tracks_active_def end_conversation_rows)
  next
    case False
    then have "s1 = db m"
      by (cases "conversation_id m") (auto simp: s1_def)
    with assms tracks_active_no_active [OF assms False] show ?thesis
      by (auto simp: tracks_active_def)
  qed
  with d have "tracks_active
           \<lparr>db = snd (create_conversation s1 (session_id m) agent now_create),
            session_id = session_id m,
            conversation_id = Some (fst (create_conversation s1 (session_id m) agent now_create))\<rparr>"
    by (rule tracks_active_create)
  then show ?thesis
    by (simp add: new_conversation_eq s1_def [symmetric] Let_def)
qed

lemma ensure_conversation_Some:
  "\<exists>i. conversation_id (ensure_conversation m now) = Some i"
  by (cases "get_active_conversation (db m) (session_id m)")
     (simp_all add: ensure_conversation_def split_beta)

text \<open>The manager's \<open>add_message\<close> always finds a conversation id and never raises.\<close>

lemma mgr_add_message_returns:
  "fst (mgr_add_message m role content now_ensure now) = None"
proof (cases "truthy_id (conversation_id m)")
  case True
  then obtain i where "conversation_id m = Some i"
    by (cases "conversation_id m") auto
  with True show ?thesis by (simp add: mgr_add_message_def)
next
  case False
  obtain i where "conversation_id (ensure_conversation m now_ensure) = Some i"
    using ensure_conversation_Some by blast
  with False show ?thesis by (simp add: mgr_add_message_def Let_def)
qed

lemma tracks_active_add:
  assumes "tracks_active m"
  shows "tracks_active (snd (mgr_add_message m role content now_ensure now))"
proof -
  define m1 where "m1 = (if \<not> truthy_id (conversation_id m)
      then ensure_conversation m now_ensure else m)"
  have m1: "tracks_active m1"
    using assms by (simp add: m1_def tracks_active_ensure)
  have "tracks_active (m1\<lparr>db := snd (add_message (db m1) c role content now)\<rparr>)" for c
    using m1 by (simp add: tracks_active_def add_message_def Let_def)
  with m1 show ?thesis
    by (simp add: mgr_add_message_def m1_def [symmetric] Let_def split: option.splits)
qed

lemma tracks_active_call: "tracks_active m \<Longrightarrow> tracks_active (do_call m c)"
  by (cases c) (simp_all add: tracks_active_ensure tracks_active_new tracks_active_add)

lemma tracks_active_calls: "tracks_active m \<Longrightarrow> tracks_active (do_calls m calls)"
  unfolding do_calls_def
  by (induction calls arbitrary: m) (simp_all add: tracks_active_call)

lemma tracks_active_new_manager:
  "conversations s = [] \<Longrightarrow> tracks_active (new_manager s sid uuid8 now)"
  unfolding new_manager_def
  by (rule tracks_active_ensure) (simp add: tracks_active_def)

lemma distinct_same_key:
  "distinct (map f xs) \<Longrightarrow> \<forall>x \<in> set xs. f x = a \<Longrightarrow> length xs \<le> 1"
proof (cases xs)
  case Nil
  then show ?thesis by simp
next
  case (Cons x ys)
  assume d: "distinct (map f xs)" and k: "\<forall>x \<in> set xs. f x = a"
  show ?thesis
  proof (cases ys)
    case Nil
    with Cons show ?thesis by simp
  next
    case (Cons y zs)
    with \<open>xs = x # ys\<close> d k show ?thesis by auto
  qed
qed

lemma tracks_active_at_most_one:
  assumes "tracks_active m"
  shows "length (filter (\<lambda>c. c_session_id c = sid \<and> c_status c = ''active'')
           (conversations (db m))) \<le> 1"
proof (cases "conversation_id m")
  case None
  with assms have "\<forall>c \<in> set (conversations (db m)). c_status c \<noteq> ''active''"
    by (intro tracks_active_no_active) simp_all
  then have "filter (\<lambda>c. c_session_id c = sid \<and> c_status c = ''active'')
           (conversations (db m)) = []"
    by (simp add: filter_empty_conv)
  then show ?thesis by simp
next
  case (Some a)
  let ?xs = "filter (\<lambda>c. c_session_id c = sid \<and> c_status c = ''active'')
           (conversations (db m))"
  from assms have "distinct (map c_id ?xs)"
    by (simp add: tracks_active_def distinct_map_filter)
  moreover from assms Some have "\<forall>c \<in> set ?xs. c_id c = a"
    by (auto simp: tracks_active_def)
  ultimately show ?thesis by (rule distinct_same_key)
qed

text \<open>
  C1: a manager is constructed on a store without conversations and then called any
  number of times, in any order, with \<open>_ensure_conversation\<close>, \<open>new_conversation\<close> and
  \<open>add_message\<close>. In the store it leaves, at most one conversation of any given
  session id is active.
\<close>

theorem at_most_one_active_conversation:
  "conversations s = [] \<Longrightarrow>
   length (filter (\<lambda>c. c_session_id c = sid' \<and> c_status c = ''active'')
     (conversations (db (do_calls (new_manager s sid uuid8 now) calls)))) \<le> 1"
  by (intro tracks_active_at_most_one tracks_active_calls tracks_active_new_manager)

theorem at_most_one_active_conversation_witness:
  "conversations init_db = []
   \<and> length (filter (\<lambda>c. c_session_id c = ''s1'' \<and> c_status c = ''active'')
        (conversations (db (do_calls (new_manager init_db (Some ''s1'') ''0a1b2c3d'' ''t0'')
           session3)))) \<le> 1
   \<and> map c_status
        (conversations (db (do_calls (new_manager init_db (Some ''s1'') ''0a1b2c3d'' ''t0'')
           session3))) = [''completed'', ''completed'', ''active'']"
proof -
  have h: "conversations init_db = []" by (simp add: init_db_def)
  have e: "map c_status
        (conversations (db (do_calls (new_manager init_db (Some ''s1'') ''0a1b2c3d'' ''t0'')
           session3))) = [''completed'', ''completed'', ''active'']"
    by (simp add: session3_def do_calls_def new_manager_def ensure_conversation_def
          get_active_conversation_def create_conversation_def end_conversation_def
          new_conversation_def next_rowid_def mgr_add_message_def add_message_def
          init_db_def Let_def)
  from at_most_one_active_conversation [OF h, of "''s1''" "Some ''s1''" "''0a1b2c3d''" "''t0''" session3]
    h e
  show ?thesis by simp
qed


section \<open>Starting a new conversation\<close>

lemma mgr_add_message_tracked:
  "conversation_id m = Some b \<Longrightarrow> b \<noteq> 0 \<Longrightarrow>
   mgr_add_message m role content now_ensure now =
     (None, m\<lparr>db := snd (add_message (db m) b role content now)\<rparr>)"
  by (simp add: mgr_add_message_def)

lemma add_message_rows:
  "messages (snd (add_message s c role content now)) =
     messages s @ [\<lparr>m_id = next_rowid (messages_seq s) (map m_id (messages s)),
         m_conversation_id = c, m_role = role, m_content = content, m_timestamp = now\<rparr>]"
  by (simp add: add_message_def Let_def)

lemma add_message_conversations:
  "conversations (snd (add_message s c role content now)) = conversations s"
  by (simp add: add_message_def Let_def)

lemma mgr_add_messages_tracked:
  assumes "conversation_id m = Some b" "b \<noteq> 0"
  shows "conversation_id (mgr_add_messages m es) = Some b
     \<and> conversations (db (mgr_add_messages m es)) = conversations (db m)
     \<and> (\<exists>rows. messages (db (mgr_add_messages m es)) = messages (db m) @ rows
           \<and> map entry_of rows = map (\<lambda>(role, content, now_ensure, now). (b, role, content, now)) es)"
  using assms
proof (induction es arbitrary: m)
  case Nil
  then show ?case by simp
next
  case (Cons e es)
  obtain r t ne n where e: "e = (r, t, ne, n)" by (cases e) auto
  let ?m1 = "m\<lparr>db := snd (add_message (db m) b r t n)\<rparr>"
  have step: "mgr_add_messages m (e # es) = mgr_add_messages ?m1 es"
    using Cons.prems by (simp add: e mgr_add_message_tracked)
  have "conversation_id ?m1 = Some b" using Cons.prems by simp
  from Cons.IH [OF this Cons.prems(2)] obtain rows where
    ih: "conversation_id (mgr_add_messages ?m1 es) = Some b"
      "conversations (db (mgr_add_messages ?m1 es)) = conversations (db ?m1)"
      "messages (db (mgr_add_messages ?m1 es)) = messages (db ?m1) @ rows"
      "map entry_of rows = map (\<lambda>(role, content, now_ensure, now). (b, role, content, now)) es"
    by blast
  let ?row = "\<lparr>m_id = next_rowid (messages_seq (db m)) (map m_id (messages (db m))),
         m_conversation_id = b, m_role = r, m_content = t, m_timestamp = n\<rparr>"
  have "messages (db (mgr_add_messages m (e # es))) = messages (db m) @ (?row # rows)"
    by (simp add: step ih add_message_rows)
  moreover have "map entry_of (?row # rows) =
      map (\<lambda>(role, content, now_ensure, now). (b, role, content, now)) (e # es)"
    by (simp add: ih e entry_of_def)
  ultimately show ?case
    using ih by (simp only: step add_message_conversations) (simp add: add_message_conversations)
qed

lemma end_conversation_row_cases:
  assumes "c \<in> set (conversations (end_conversation s a now))" "c_id c = a"
  shows "c_status c = ''completed'' \<and> c_ended_at c = Some now"
proof -
  from assms(1) obtain y where y: "y \<in> set (conversations s)"
    and c: "c = (if c_id y = a then y\<lparr>c_ended_at := Some now, c_status := ''completed''\<rparr>
                 else y)"
    unfolding end_conversation_rows set_map by (rule imageE)
  show ?thesis
  proof (cases "c_id y = a")
    case True
    with c show ?thesis by simp
  next
    case False
    with c assms(2) show ?thesis by simp
  qed
qed

lemma end_conversation_keeps_id:
  assumes "a \<in> set (map c_id (conversations s))"
  shows "\<exists>c \<in> set (conversations (end_conversation s a now)). c_id c = a"
proof -
  have "a \<in> set (map c_id (conversations (end_conversation s a now)))"
    using assms by (simp only: end_conversation_ids)
  then show ?thesis by auto
qed

text \<open>
  C6: a manager tracks conversation \<open>a\<close>, a row of its store with a positive id, as
  every id SQLite hands out is. Then \<open>new_conversation\<close> returns an id \<open>b\<close> other than
  \<open>a\<close> and tracks it; the row \<open>a\<close> is still there, completed, with \<open>ended_at\<close> set; the
  row \<open>b\<close> is there, active, for the manager's session; and whatever messages are added
  through the manager afterwards are appended to the table with conversation id \<open>b\<close>.
\<close>

theorem new_conversation_replaces_tracked:
  assumes "conversation_id m = Some a" and "0 < a"
    and "a \<in> set (map c_id (conversations (db m)))"
  shows "case new_conversation m agent_name now_end now_create of (b, m') \<Rightarrow>
     b \<noteq> a \<and> conversation_id m' = Some b
     \<and> (\<exists>c \<in> set (conversations (db m')). c_id c = a)
     \<and> (\<forall>c \<in> set (conversations (db m')). c_id c = a \<longrightarrow>
           c_status c = ''completed'' \<and> c_ended_at c = Some now_end)
     \<and> \<lparr>c_id = b, c_session_id = session_id m, c_started_at = now_create, c_ended_at = None,
         c_agent_name = agent_name, c_status = ''active''\<rparr> \<in> set (conversations (db m'))
     \<and> (\<forall>es. \<exists>rows.
           messages (db (mgr_add_messages m' es)) = messages (db m') @ rows
           \<and> map entry_of rows =
               map (\<lambda>(role, content, now_ensure, now). (b, role, content, now)) es)"
proof -
  define s1 where "s1 = end_conversation (db m) a now_end"
  define b where "b = next_rowid (conversations_seq s1) (map c_id (conversations s1))"
  define new where "new = \<lparr>c_id = b, c_session_id = session_id m, c_started_at = now_create,
         c_ended_at = None, c_agent_name = agent_name, c_status = ''active''\<rparr>"
  define s2 where "s2 = snd (create_conversation s1 (session_id m) agent_name now_create)"
  define m' where "m' = \<lparr>db = s2, session_id = session_id m, conversation_id = Some b\<rparr>"
  have eq: "new_conversation m agent_name now_end now_create = (b, m')"
    using assms(1,2)
    by (simp add: new_conversation_eq create_conversation_id Let_def m'_def s2_def b_def s1_def)
  have rows: "conversations s2 = conversations s1 @ [new]"
    by (simp add: s2_def create_conversation_rows new_def b_def)
  have "a \<in> set (map c_id (conversations s1))"
    using assms(3) by (simp only: s1_def end_conversation_ids)
  then have "a < b" unfolding b_def by (rule next_rowid_gt)
  then have ne: "b \<noteq> a" by simp
  have idnew: "c_id new = b" by (simp add: new_def)
  have "\<exists>c \<in> set (conversations s1). c_id c = a"
    unfolding s1_def using assms(3) by (rule end_conversation_keeps_id)
  then have ex: "\<exists>c \<in> set (conversations s2). c_id c = a"
    unfolding rows by auto
  have ended: "\<forall>c \<in> set (conversations s2). c_id c = a \<longrightarrow>
           c_status c = ''completed'' \<and> c_ended_at c = Some now_end"
  proof (intro ballI impI)
    fix c assume c: "c \<in> set (conversations s2)" and ca: "c_id c = a"
    from c ca ne idnew have "c \<in> set (conversations s1)"
      unfolding rows by auto
    then show "c_status c = ''completed'' \<and> c_ended_at c = Some now_end"
      unfolding s1_def using ca by (rule end_conversation_row_cases)
  qed
  have isnew: "new \<in> set (conversations s2)"
    unfolding rows by simp
  have "0 < b" unfolding b_def by (rule next_rowid_pos)
  then have nz: "b \<noteq> 0" by simp
  have db: "db m' = s2" and cid: "conversation_id m' = Some b"
    by (simp_all add: m'_def)
  have later: "\<forall>es. \<exists>rows.
           messages (db (mgr_add_messages m' es)) = messages (db m') @ rows
           \<and> map entry_of rows =
               map (\<lambda>(role, content, now_ensure, now). (b, role, content, now)) es"
    using mgr_add_messages_tracked [OF cid nz] by blast
  from ne cid ex ended isnew later show ?thesis
    unfolding eq prod.case db new_def by blast
qed

lemma chat2_eq:
  "chat2 = \<lparr>db = \<lparr>prompt_documents = [], prompt_documents_seq = 0,
          conversations =
            [\<lparr>c_id = 1, c_session_id = ''s1'', c_started_at = ''t0'',
                c_ended_at = None, c_agent_name = None, c_status = ''active''\<rparr>],
          conversations_seq = 1,
          messages =
            [\<lparr>m_id = 1, m_conversation_id = 1, m_role = ''user'',
                m_content = ''a'', m_timestamp = ''t1''\<rparr>,
             \<lparr>m_id = 2, m_conversation_id = 1, m_role = ''assistant'',
                m_content = ''b'', m_timestamp = ''t2''\<rparr>],
          messages_seq = 2\<rparr>,
    session_id = ''s1'', conversation_id = Some 1\<rparr>"
  by (simp add: chat2_def do_calls_def new_manager_def ensure_conversation_def
        get_active_conversation_def create_conversation_def next_rowid_def
        mgr_add_message_def add_message_def init_db_def Let_def)

theorem new_conversation_replaces_tracked_witness:
  "conversation_id chat2 = Some 1 \<and> (0::nat) < 1
   \<and> 1 \<in> set (map c_id (conversations (db chat2)))
   \<and> fst (new_conversation chat2 None ''t3'' ''t4'') = 2
   \<and> map (\<lambda>c. (c_id c, c_status c, c_ended_at c))
        (conversations (db (snd (new_conversation chat2 None ''t3'' ''t4'')))) =
       [(1, ''completed'', Some ''t3''), (2, ''active'', None)]
   \<and> (\<exists>rows.
         messages (db (mgr_add_messages (snd (new_conversation chat2 None ''t3'' ''t4''))
            [(''user'', ''c'', ''t5'', ''t5'')])) =
           messages (db (snd (new_conversation chat2 None ''t3'' ''t4''))) @ rows
         \<and> map entry_of rows = [(2, ''user'', ''c'', ''t5'')])"
proof -
  have h1: "conversation_id chat2 = Some 1" and h2: "(0::nat) < 1"
    and h3: "1 \<in> set (map c_id (conversations (db chat2)))"
    by (simp_all add: chat2_eq)
  have e: "new_conversation chat2 None ''t3'' ''t4'' =
     (2, \<lparr>db = \<lparr>prompt_documents = [], prompt_documents_seq = 0,
          conversations =
            [\<lparr>c_id = 1, c_session_id = ''s1'', c_started_at = ''t0'',
                c_ended_at = Some ''t3'', c_agent_name = None, c_status = ''completed''\<rparr>,
             \<lparr>c_id = 2, c_session_id = ''s1'', c_started_at = ''t4'',
                c_ended_at = None, c_agent_name = None, c_status = ''active''\<rparr>],
          conversations_seq = 2,
          messages =
            [\<lparr>m_id = 1, m_conversation_id = 1, m_role = ''user'',
                m_content = ''a'', m_timestamp = ''t1''\<rparr>,
             \<lparr>m_id = 2, m_conversation_id = 1, m_role = ''assistant'',
                m_content = ''b'', m_timestamp = ''t2''\<rparr>],
          messages_seq = 2\<rparr>,
       session_id = ''s1'', conversation_id = Some 2\<rparr>)"
    by (simp add: chat2_eq new_conversation_def end_conversation_def create_conversation_def
          next_rowid_def Let_def)
  from new_conversation_replaces_tracked [OF h1 h2 h3, where agent_name = None
      and now_end = "''t3''" and now_create = "''t4''"]
  have "\<exists>rows.
         messages (db (mgr_add_messages (snd (new_conversation chat2 None ''t3'' ''t4''))
            [(''user'', ''c'', ''t5'', ''t5'')])) =
           messages (db (snd (new_conversation chat2 None ''t3'' ''t4''))) @ rows
         \<and> map entry_of rows = [(2, ''user'', ''c'', ''t5'')]"
    unfolding e prod.case snd_conv
    by (elim conjE allE [where x = "[(''user'', ''c'', ''t5'', ''t5'')]"]) simp
  with h1 h2 h3 show ?thesis
    by (simp add: e)
qed


section \<open>Listing the documents\<close>

lemma list_documents_all:
  "list_documents s None True =
     sort_key (\<lambda>d. (- d_priority d, d_category d, d_name d)) (prompt_documents s)"
  by (simp add: list_documents_def)

lemma list_documents_key:
  "list_documents s None True = sort_key (\<lambda>d. args_key (doc_fields d)) (prompt_documents s)"
  by (simp add: list_documents_all args_key_def doc_fields_def)

lemma map_insort_key:
  "map g (insort_key (\<lambda>x. k (g x)) x xs) = insort_key k (g x) (map g xs)"
  by (induction xs) simp_all

lemma map_sort_key: "map g (sort_key (\<lambda>x. k (g x)) xs) = sort_key k (map g xs)"
  by (induction xs) (simp_all add: map_insort_key)

lemma sort_key_mset_unique:
  assumes "mset xs = mset ys" "inj_on k (set xs)"
  shows "sort_key k xs = sort_key k ys"
  by (rule sort_key_inj_key_eq) (simp_all add: assms)

lemma args_key_inj:
  assumes "distinct (map fst xs)"
  shows "inj_on args_key (set xs)"
proof (rule inj_onI)
  fix a b assume a: "a \<in> set xs" and b: "b \<in> set xs" and k: "args_key a = args_key b"
  from k have "fst a = fst b"
    by (auto simp: args_key_def split: prod.splits)
  moreover from assms have "inj_on fst (set xs)"
    by (simp add: distinct_map)
  ultimately show "a = b" using a b by (auto dest: inj_onD)
qed

lemma listing_fields_unique:
  assumes "mset (map doc_fields (prompt_documents s)) = mset (map doc_fields (prompt_documents s'))"
    and "distinct (map d_name (prompt_documents s))"
  shows "map doc_fields (list_documents s None True) =
         map doc_fields (list_documents s' None True)"
proof -
  have "map fst (map doc_fields (prompt_documents s)) = map d_name (prompt_documents s)"
    by (simp add: doc_fields_def)
  with assms(2) have "distinct (map fst (map doc_fields (prompt_documents s)))"
    by (simp only:)
  then have "inj_on args_key (set (map doc_fields (prompt_documents s)))"
    by (rule args_key_inj)
  with assms(1) have "sort_key args_key (map doc_fields (prompt_documents s)) =
      sort_key args_key (map doc_fields (prompt_documents s'))"
    by (rule sort_key_mset_unique)
  then show ?thesis
    by (simp only: list_documents_key map_sort_key)
qed

lemma add_document_fresh:
  "name \<notin> set (map d_name (prompt_documents s)) \<Longrightarrow> sqlite_integer priority \<Longrightarrow>
   map doc_fields (prompt_documents (snd (add_document s name description github_url
       local_path category priority source_updated_at now))) =
   map doc_fields (prompt_documents s) @
     [(name, description, github_url, local_path, category, priority, source_updated_at)]"
  by (simp add: add_document_def Let_def doc_fields_def)

lemma add_document_names:
  "set (map d_name (prompt_documents (snd (add_document s name description github_url
       local_path category priority source_updated_at now)))) \<subseteq>
   insert name (set (map d_name (prompt_documents s)))"
  by (auto simp: add_document_def Let_def)

lemma add_documents_fields:
  assumes "distinct (map arg_name as)"
    and "set (map arg_name as) \<inter> set (map d_name (prompt_documents s)) = {}"
  shows "map doc_fields (prompt_documents (add_documents s as)) =
         map doc_fields (prompt_documents s) @ filter insertable (map fst as)"
  using assms
proof (induction as arbitrary: s)
  case Nil
  then show ?case by simp
next
  case (Cons e as)
  obtain name description github_url local_path category priority source_updated_at now
    where e: "e = ((name, description, github_url, local_path, category, priority,
       source_updated_at), now)"
    by (cases e) auto
  let ?s1 = "snd (add_document s name description github_url local_path category priority
       source_updated_at now)"
  have ne: "arg_name e = name" by (simp add: e arg_name_def)
  have ins: "insertable (name, description, github_url, local_path, category, priority,
       source_updated_at) = sqlite_integer priority"
    by (simp add: insertable_def)
  from Cons.prems(2) have fresh: "name \<notin> set (map d_name (prompt_documents s))"
    by (simp add: ne)
  have f1: "map doc_fields (prompt_documents ?s1) =
      map doc_fields (prompt_documents s) @ filter insertable [fst e]"
  proof (cases "sqlite_integer priority")
    case True
    with add_document_fresh [OF fresh True] show ?thesis by (simp add: e ins)
  next
    case False
    then show ?thesis by (simp add: add_document_overflow e ins)
  qed
  have "distinct (map arg_name as)" using Cons.prems(1) by simp
  moreover have "set (map arg_name as) \<inter> set (map d_name (prompt_documents ?s1)) = {}"
  proof -
    have "name \<notin> set (map arg_name as)" using Cons.prems(1) by (simp add: ne)
    moreover have "set (map arg_name as) \<inter> set (map d_name (prompt_documents s)) = {}"
      using Cons.prems(2) by auto
    ultimately show ?thesis
      using add_document_names [of s name description github_url local_path category
          priority source_updated_at now]
      by blast
  qed
  ultimately have "map doc_fields (prompt_documents (add_documents ?s1 as)) =
         map doc_fields (prompt_documents ?s1) @ filter insertable (map fst as)"
    by (rule Cons.IH)
  then show ?case by (simp add: e f1)
qed

lemma lex_triple_le:
  fixes a a' :: "'a::linorder" and b b' :: "'b::linorder" and c c' :: "'c::linorder"
  assumes "(a, b, c) \<le> (a', b', c')"
  shows "a < a' \<or> (a = a' \<and> (b < b' \<or> (b = b' \<and> c \<le> c')))"
proof -
  from assms have "a < a' \<or> (a \<le> a' \<and> (b < b' \<or> (b \<le> b' \<and> c \<le> c')))"
    by (simp add: less_eq_prod_def)
  then show ?thesis by (auto simp: order.order_iff_strict)
qed

lemma key_le_listed_before:
  assumes "(- d_priority d, d_category d, d_name d) \<le> (- d_priority e, d_category e, d_name e)"
  shows "listed_before d e"
proof -
  from lex_triple_le [OF assms]
  have "- d_priority d < - d_priority e \<or>
      (- d_priority d = - d_priority e \<and>
        (d_category d < d_category e \<or> (d_category d = d_category e \<and> d_name d \<le> d_name e)))" .
  then show ?thesis
    unfolding listed_before_def by (simp only: neg_less_iff_less neg_equal_iff_equal)
qed

lemma list_documents_sorted: "sorted_wrt listed_before (list_documents s None True)"
proof -
  have "sorted (map (\<lambda>d. (- d_priority d, d_category d, d_name d))
          (list_documents s None True))"
    unfolding list_documents_all by (rule sorted_sort_key)
  then have "sorted_wrt (\<lambda>d e. (- d_priority d, d_category d, d_name d)
                \<le> (- d_priority e, d_category e, d_name e)) (list_documents s None True)"
    by (simp add: sorted_map)
  then show ?thesis
    by (rule sorted_wrt_mono_rel [rotated]) (rule key_le_listed_before)
qed

lemma arg_names_mset:
  assumes "mset (map fst as) = mset (map fst bs)"
  shows "mset (map arg_name as) = mset (map arg_name bs)"
proof -
  have n: "map arg_name xs = map fst (map fst xs)" for xs :: "(doc_args \<times> string) list"
    by (simp add: arg_name_def)
  have "image_mset fst (mset (map fst as)) = image_mset fst (mset (map fst bs))"
    using assms by (rule arg_cong)
  then have "mset (map fst (map fst as)) = mset (map fst (map fst bs))"
    by (simp only: mset_map)
  then show ?thesis by (simp only: n)
qed

lemma add_documents_init:
  assumes "distinct (map arg_name as)"
  shows "map doc_fields (prompt_documents (add_documents init_db as)) =
         filter insertable (map fst as)"
proof -
  have "set (map arg_name as) \<inter> set (map d_name (prompt_documents init_db)) = {}"
    by (simp add: init_db_def)
  with assms have "map doc_fields (prompt_documents (add_documents init_db as)) =
      map doc_fields (prompt_documents init_db) @ filter insertable (map fst as)"
    by (rule add_documents_fields)
  moreover have "map doc_fields (prompt_documents init_db) = []"
    by (simp add: init_db_def)
  ultimately show ?thesis by simp
qed

lemma insertion_order_irrelevant:
  assumes da: "distinct (map arg_name as)" and eq: "mset (map fst as) = mset (map fst bs)"
  shows "map doc_fields (list_documents (add_documents init_db as) None True) =
         map doc_fields (list_documents (add_documents init_db bs) None True)"
proof -
  let ?sa = "add_documents init_db as" and ?sb = "add_documents init_db bs"
  have "distinct (map arg_name bs)"
    using da arg_names_mset [OF eq] by (metis mset_eq_imp_distinct_iff)
  then have fb: "map doc_fields (prompt_documents ?sb) = filter insertable (map fst bs)"
    by (rule add_documents_init)
  have fa: "map doc_fields (prompt_documents ?sa) = filter insertable (map fst as)"
    using da by (rule add_documents_init)
  have "map arg_name as = map fst (map fst as)" by (simp add: arg_name_def)
  with da have "distinct (map fst (map fst as))" by (simp only:)
  then have "distinct (map fst (filter insertable (map fst as)))"
    by (rule distinct_map_filter)
  moreover have "map d_name (prompt_documents ?sa) =
      map fst (map doc_fields (prompt_documents ?sa))"
    by (simp add: doc_fields_def)
  ultimately have "distinct (map d_name (prompt_documents ?sa))"
    by (simp only: fa)
  moreover have "mset (filter insertable (map fst as)) = mset (filter insertable (map fst bs))"
    using eq by (simp only: mset_filter)
  then have "mset (map doc_fields (prompt_documents ?sa)) =
      mset (map doc_fields (prompt_documents ?sb))"
    by (simp only: fa fb)
  ultimately show ?thesis
    by (rule listing_fields_unique [rotated])
qed

text \<open>
  C3: \<open>list_documents\<close> without a category returns the stored documents, all of them
  and each once, in the order of the specification: by descending priority, then by
  category, then by name. The order does not depend on the order of insertion: the same
  documents, with distinct names, inserted into an empty database in two different
  orders are listed in the same order.
\<close>

theorem list_documents_order:
  "mset (list_documents s None True) = mset (prompt_documents s)
   \<and> sorted_wrt listed_before (list_documents s None True)
   \<and> (distinct (map arg_name as) \<and> mset (map fst as) = mset (map fst bs) \<longrightarrow>
        map doc_fields (list_documents (add_documents init_db as) None True) =
        map doc_fields (list_documents (add_documents init_db bs) None True))"
proof (intro conjI impI)
  show "mset (list_documents s None True) = mset (prompt_documents s)"
    unfolding list_documents_all by (rule mset_sort)
  show "sorted_wrt listed_before (list_documents s None True)"
    by (rule list_documents_sorted)
next
  assume "distinct (map arg_name as) \<and> mset (map fst as) = mset (map fst bs)"
  then have "distinct (map arg_name as)" and "mset (map fst as) = mset (map fst bs)"
    by (rule conjunct1, rule conjunct2)
  then show "map doc_fields (list_documents (add_documents init_db as) None True) =
        map doc_fields (list_documents (add_documents init_db bs) None True)"
    by (rule insertion_order_irrelevant)
qed

theorem list_documents_order_witness:
  "distinct (map arg_name seed_a) \<and> mset (map fst seed_a) = mset (map fst seed_b)
   \<and> map doc_fields (list_documents (add_documents init_db seed_a) None True) =
       [doc_y, doc_w, doc_z, doc_x]
   \<and> map doc_fields (list_documents (add_documents init_db seed_b) None True) =
       [doc_y, doc_w, doc_z, doc_x]"
proof -
  have h: "distinct (map arg_name seed_a) \<and> mset (map fst seed_a) = mset (map fst seed_b)"
    by (simp add: seed_a_def seed_b_def arg_name_def doc_x_def doc_y_def doc_z_def doc_w_def)
  have l: "map doc_fields (list_documents (add_documents init_db seed_a) None True) =
       [doc_y, doc_w, doc_z, doc_x]"
    by (simp add: seed_a_def doc_x_def doc_y_def doc_z_def doc_w_def add_document_def
          sqlite_integer_def init_db_def next_rowid_def list_documents_def doc_fields_def
          less_eq_prod_def less_char_def less_eq_char_def)
  from list_documents_order [of init_db seed_a seed_b] h l
  show ?thesis by simp
qed

text \<open>The scenario of the specification: x with priority 10, then y with priority 90.\<close>

lemma list_documents_scenario:
  "map d_name (list_documents (add_documents init_db [(doc_x, ''t1''), (doc_y, ''t2'')])
     None True) = [''y'', ''x'']"
  by (simp add: doc_x_def doc_y_def add_document_def sqlite_integer_def init_db_def
        next_rowid_def list_documents_def less_eq_prod_def)


end
